theory Spec2Isabelle
  imports Main "HOL-Library.Word"
begin

unbundle bit_operations_syntax

section \<open>Data model of the driver (SANE/primascan.c)\<close>

text \<open>
  The driver keeps its data in static globals. A C \<open>char\<close> of \<open>largeBuffer\<close> is a
  \<open>byte\<close>; a C \<open>int\<close> is an \<open>int\<close> (the transfer tables hold byte values, so no
  expression of the driver leaves the 32-bit range on them). An \<open>int *data\<close> argument
  is the function \<open>k \<mapsto> data[k]\<close>.
\<close>

type_synonym byte = "8 word"
type_synonym int_ptr = "nat \<Rightarrow> int"

text \<open>
  libusb is an external collaborator. Each request the driver issues is a \<open>usb_call\<close>:
  \<^item> \<open>ControlMsg requestType request value index bytes size\<close> for \<open>usb_control_msg\<close>,
  \<^item> \<open>BulkRead ep size\<close> for \<open>usb_bulk_read\<close>,
  \<^item> \<open>BulkWrite ep bytes size\<close> for \<open>usb_bulk_write\<close>,
  where \<open>bytes\<close> are the first \<open>size\<close> bytes of the buffer handed to the call.
  The device answers a call with the call's return value, the bytes it deposits at the
  start of the buffer (for the two calls that take data in), and its next state.
\<close>

datatype usb_call =
    ControlMsg int int int int "byte list" int
  | BulkRead int int
  | BulkWrite int "byte list" int

type_synonym 'd usb_device = "usb_call \<Rightarrow> 'd \<Rightarrow> int \<times> byte list \<times> 'd"

datatype SANE_Status = SANE_STATUS_GOOD | SANE_STATUS_EOF | SANE_STATUS_IO_ERROR

text \<open>A function that may end the process with \<open>exit (code)\<close> instead of returning.\<close>

datatype 'a proc = Exit int | Return 'a

text \<open>
  The static variables: the globals \<open>deviceHandle\<close> (here the state of the device behind
  the handle), \<open>dpiValue\<close> and \<open>largeBuffer\<close>, and the three function-local statics
  of \<open>sane_read\<close> (\<open>dataAvailable\<close>, \<open>whereInBuffer\<close> and \<open>i\<close>, here \<open>read_i\<close>).
  Two fields are logs kept for stating properties: \<open>stores\<close> lists the index of every
  assignment \<open>largeBuffer[k] = v\<close> the driver makes, in order, and \<open>trace\<close> lists the
  USB calls it issues, in order.
\<close>

record 'd driver =
  deviceHandle :: 'd
  dpiValue :: int
  largeBuffer :: "nat \<Rightarrow> byte"
  stores :: "int list"
  trace :: "usb_call list"
  dataAvailable :: int
  whereInBuffer :: int
  read_i :: int

text \<open>
  The tables of primascan.h, which is not part of the sources at hand: they are
  parameters. \<open>setupBlack\<close>, \<open>setupColor\<close>, \<open>scanBlack\<close> and \<open>scanColor\<close> stand for the
  pointers \<open>setupBlack[0]\<close>, ... to the first row, which the driver walks in steps of 16
  ints; \<open>scannerSetup\<close>, \<open>calibration\<close> and \<open>finalize\<close> map a row number to the row.
\<close>

record tables =
  scannerSetup :: "nat \<Rightarrow> int_ptr"
  scannerSetupSize :: int
  setupBlack :: int_ptr
  setupBlackSize :: int
  setupColor :: int_ptr
  setupColorSize :: int
  calibration :: "nat \<Rightarrow> int_ptr"
  calibrationSize :: int
  calibWrite :: int_ptr
  calibWriteSize :: int
  scanBlack :: int_ptr
  scanBlackSize :: int
  scanColor :: int_ptr
  scanColorSize :: int
  finalize :: "nat \<Rightarrow> int_ptr"
  finalizeSize :: int

text \<open>\<open>static char largeBuffer[0xffff]\<close>: the valid indices are \<open>0 .. 0xfffe\<close>.\<close>

definition largeBuffer_size :: int where
  "largeBuffer_size = 0xffff"

definition in_largeBuffer :: "int \<Rightarrow> bool" where
  "in_largeBuffer k = (0 \<le> k \<and> k < largeBuffer_size)"

text \<open>
  \<open>largeBuffer[k] = v\<close>. Every store is logged; a store outside the array is undefined
  behaviour in C and leaves the modelled buffer as it is.
\<close>

definition store_byte :: "int \<Rightarrow> byte \<Rightarrow> 'd driver \<Rightarrow> 'd driver" where
  "store_byte k v s =
     (if in_largeBuffer k
      then s\<lparr>largeBuffer := (largeBuffer s)(nat k := v), stores := stores s @ [k]\<rparr>
      else s\<lparr>stores := stores s @ [k]\<rparr>)"

text \<open>\<open>typePtr + k\<close>.\<close>

definition ptr_add :: "int_ptr \<Rightarrow> int \<Rightarrow> int_ptr" where
  "ptr_add p k = (\<lambda>j. p (nat k + j))"

section \<open>The libusb calls\<close>

definition buffer_bytes :: "'d driver \<Rightarrow> int \<Rightarrow> byte list" where
  "buffer_bytes s sz = map (largeBuffer s) [0..<nat sz]"

definition deposit :: "byte list \<Rightarrow> (nat \<Rightarrow> byte) \<Rightarrow> (nat \<Rightarrow> byte)" where
  "deposit bytes buf = (\<lambda>k. if k < length bytes then bytes ! k else buf k)"

definition usb_control_msg ::
  "'d usb_device \<Rightarrow> int \<Rightarrow> int \<Rightarrow> int \<Rightarrow> int \<Rightarrow> int \<Rightarrow> 'd driver \<Rightarrow> int \<times> 'd driver" where
  "usb_control_msg usb requestType request val index sz s =
     (let call = ControlMsg requestType request val index (buffer_bytes s sz) sz in
      case usb call (deviceHandle s) of
        (result, bytes, d) \<Rightarrow>
          (result, s\<lparr>deviceHandle := d,
                      largeBuffer := deposit (take (nat sz) bytes) (largeBuffer s),
                      trace := trace s @ [call]\<rparr>))"

definition usb_bulk_read :: "'d usb_device \<Rightarrow> int \<Rightarrow> int \<Rightarrow> 'd driver \<Rightarrow> int \<times> 'd driver" where
  "usb_bulk_read usb ep sz s =
     (let call = BulkRead ep sz in
      case usb call (deviceHandle s) of
        (result, bytes, d) \<Rightarrow>
          (result, s\<lparr>deviceHandle := d,
                      largeBuffer := deposit (take (nat sz) bytes) (largeBuffer s),
                      trace := trace s @ [call]\<rparr>))"

definition usb_bulk_write :: "'d usb_device \<Rightarrow> int \<Rightarrow> int \<Rightarrow> 'd driver \<Rightarrow> int \<times> 'd driver" where
  "usb_bulk_write usb ep sz s =
     (let call = BulkWrite ep (buffer_bytes s sz) sz in
      case usb call (deviceHandle s) of
        (result, bytes, d) \<Rightarrow> (result, s\<lparr>deviceHandle := d, trace := trace s @ [call]\<rparr>))"

section \<open>The transfer primitives\<close>

subsection \<open>calibrate\<close>

function calibrate_inner :: "int \<Rightarrow> int \<Rightarrow> byte \<Rightarrow> 'd driver \<Rightarrow> 'd driver" where
  "calibrate_inner j i temp s =
     (if j < 64 then calibrate_inner (j + 1) i temp (store_byte (j + i) temp s) else s)"
  by pat_completeness auto
termination
  by (relation "measure (\<lambda>(j, i, temp, s). nat (64 - j))") auto

declare calibrate_inner.simps [simp del]

function calibrate_outer :: "int \<Rightarrow> int \<Rightarrow> int \<Rightarrow> 'd driver \<Rightarrow> 'd driver" where
  "calibrate_outer i incr sz s =
     (if i < sz then
        (let temp = (word_of_int incr :: byte);
             s1 = calibrate_inner 0 i temp s;
             incr1 = incr + 1;
             incr2 = (if incr1 > 0xff then 0 else incr1)
         in calibrate_outer (i + 64) incr2 sz s1)
      else s)"
  by pat_completeness auto
termination
  by (relation "measure (\<lambda>(i, incr, sz, s). nat (sz - i))") auto

declare calibrate_outer.simps [simp del]

definition calibrate :: "'d usb_device \<Rightarrow> 'd driver \<Rightarrow> int \<times> 'd driver" where
  "calibrate usb s =
     (let ep = 2; sz = 0xc000;
          s1 = calibrate_outer 0 0 sz s
      in case usb_bulk_write usb ep sz s1 of
           (result, s2) \<Rightarrow>
             (if result > 0 then (if result = sz then 1 else 2) else 0, s2))"

text \<open>
  The pattern \<open>calibrate\<close> is meant to write: byte \<open>n\<close> lies in the 64-byte block
  \<open>n div 64\<close> and holds the block number modulo 256.
\<close>

definition calibrate_pattern :: "nat \<Rightarrow> byte" where
  "calibrate_pattern n = of_nat (n div 64 mod 256)"

subsection \<open>calibrationWrite\<close>

function calibrationWrite_zero :: "int \<Rightarrow> 'd driver \<Rightarrow> 'd driver" where
  "calibrationWrite_zero j s =
     (if j < 0x3000 then calibrationWrite_zero (j + 1) (store_byte j 0 s) else s)"
  by pat_completeness auto
termination
  by (relation "measure (\<lambda>(j, s). nat (0x3000 - j))") auto

declare calibrationWrite_zero.simps [simp del]

function calibrationWrite_copy :: "int_ptr \<Rightarrow> int \<Rightarrow> int \<Rightarrow> 'd driver \<Rightarrow> 'd driver" where
  "calibrationWrite_copy cw cwSize j s =
     (if j < cwSize
      then calibrationWrite_copy cw cwSize (j + 1) (store_byte j (word_of_int (cw (nat j))) s)
      else s)"
  by pat_completeness auto
termination
  by (relation "measure (\<lambda>(cw, cwSize, j, s). nat (cwSize - j))") auto

declare calibrationWrite_copy.simps [simp del]

definition calibrationWrite ::
  "'d usb_device \<Rightarrow> tables \<Rightarrow> int_ptr \<Rightarrow> 'd driver \<Rightarrow> int \<times> 'd driver" where
  "calibrationWrite usb T data s =
     (let ep = data 1;
          sz = push_bit 8 (data 2) + data 3;
          s1 = calibrationWrite_zero 0 s;
          s2 = calibrationWrite_copy (calibWrite T) (calibWriteSize T) 0 s1
      in case usb_bulk_write usb ep sz s2 of
           (result, s3) \<Rightarrow>
             (if result > 0 then (if result = sz then 1 else 2) else 0, s3))"

subsection \<open>repeatedControlTransfer\<close>

text \<open>
  The loop \<open>while (buffer[0] != checkCharacter) { result = usb_control_msg (...); if
  (result < 0) return 0; } return 1;\<close> has no bound: when it never ends the value is
  \<open>None\<close>.
\<close>

partial_function (option) repeatedControlTransfer_loop ::
  "'d usb_device \<Rightarrow> int \<Rightarrow> int \<Rightarrow> int \<Rightarrow> int \<Rightarrow> int \<Rightarrow> byte \<Rightarrow> 'd driver
     \<Rightarrow> (int \<times> 'd driver) option" where
  "repeatedControlTransfer_loop usb requestType request val index sz checkCharacter s =
     (if largeBuffer s 0 \<noteq> checkCharacter then
        (case usb_control_msg usb requestType request val index sz s of
           (result, s1) \<Rightarrow>
             if result < 0 then Some (0, s1)
             else repeatedControlTransfer_loop usb requestType request val index sz
                    checkCharacter s1)
      else Some (1, s))"

declare repeatedControlTransfer_loop.simps [code]

definition repeatedControlTransfer ::
  "'d usb_device \<Rightarrow> int_ptr \<Rightarrow> 'd driver \<Rightarrow> (int \<times> 'd driver) option" where
  "repeatedControlTransfer usb data s =
     (let requestType = data 1;
          request = data 2;
          val = push_bit 8 (data 4) + data 3;
          index = push_bit 8 (data 6) + data 5;
          sz = push_bit 8 (data 8) + data 7;
          checkCharacter = (word_of_int (data 9) :: byte)
      in repeatedControlTransfer_loop usb requestType request val index sz checkCharacter s)"

subsection \<open>bulkRead\<close>

text \<open>The empty counting loop before the call has no effect on the state.\<close>

definition bulkRead :: "'d usb_device \<Rightarrow> int_ptr \<Rightarrow> 'd driver \<Rightarrow> int \<times> 'd driver" where
  "bulkRead usb data s =
     (let ep = data 1;
          sz = push_bit 8 (data 2) + data 3
      in case usb_bulk_read usb ep sz s of
           (result, s1) \<Rightarrow>
             (if result > 0 then (if result = sz then 1 else 2) else 0, s1))"

subsection \<open>writeBulk0s\<close>

function writeBulk0s_zero :: "int \<Rightarrow> int \<Rightarrow> 'd driver \<Rightarrow> 'd driver" where
  "writeBulk0s_zero i sz s =
     (if i \<le> sz then writeBulk0s_zero (i + 1) sz (store_byte i 0 s) else s)"
  by pat_completeness auto
termination
  by (relation "measure (\<lambda>(i, sz, s). nat (sz + 1 - i))") auto

declare writeBulk0s_zero.simps [simp del]

definition writeBulk0s_size :: "int_ptr \<Rightarrow> int" where
  "writeBulk0s_size data = push_bit 8 (data 2) + data 1"

definition writeBulk0s :: "'d usb_device \<Rightarrow> int_ptr \<Rightarrow> 'd driver \<Rightarrow> int \<times> 'd driver" where
  "writeBulk0s usb data s =
     (let ep = data 1;
          sz = writeBulk0s_size data;
          s1 = writeBulk0s_zero 0 sz s
      in case usb_bulk_write usb ep sz s1 of
           (result, s2) \<Rightarrow>
             (if result > 0 then (if result = sz then 1 else 2) else 0, s2))"

subsection \<open>controlTransfer\<close>

function controlTransfer_copy :: "int_ptr \<Rightarrow> int \<Rightarrow> int \<Rightarrow> 'd driver \<Rightarrow> 'd driver" where
  "controlTransfer_copy data i sz s =
     (if i < sz
      then controlTransfer_copy data (i + 1) sz
             (store_byte i (word_of_int (data (nat (i + 8)))) s)
      else s)"
  by pat_completeness auto
termination
  by (relation "measure (\<lambda>(data, i, sz, s). nat (sz - i))") auto

declare controlTransfer_copy.simps [simp del]

definition controlTransfer :: "'d usb_device \<Rightarrow> int_ptr \<Rightarrow> 'd driver \<Rightarrow> int \<times> 'd driver" where
  "controlTransfer usb data s =
     (let requestType = data 0;
          request = data 1;
          val = push_bit 8 (data 3) + data 2;
          index = push_bit 8 (data 5) + data 4;
          sz = push_bit 8 (data 7) + data 6;
          s1 = controlTransfer_copy data 0 sz s
      in case usb_control_msg usb requestType request val index sz s1 of
           (result, s2) \<Rightarrow> if result < 0 then (0, s2) else (1, s2))"

subsection \<open>finalizeScanner\<close>

function finalizeScanner_loop ::
  "'d usb_device \<Rightarrow> tables \<Rightarrow> int \<Rightarrow> 'd driver \<Rightarrow> int proc \<times> 'd driver" where
  "finalizeScanner_loop usb T i s =
     (if i < finalizeSize T then
        (case controlTransfer usb (finalize T (nat i)) s of
           (result, s1) \<Rightarrow>
             if result < 0 then (Exit 1, s1)
             else finalizeScanner_loop usb T (i + 1) s1)
      else (Return 1, s))"
  by pat_completeness auto
termination
  by (relation "measure (\<lambda>(usb, T, i, s). nat (finalizeSize T - i))") auto

declare finalizeScanner_loop.simps [simp del]

definition finalizeScanner :: "'d usb_device \<Rightarrow> tables \<Rightarrow> 'd driver \<Rightarrow> int proc \<times> 'd driver" where
  "finalizeScanner usb T s = finalizeScanner_loop usb T 0 s"

section \<open>sane_start\<close>

text \<open>
  The three loops of \<open>sane_start\<close>. A loop returns \<open>Some status\<close> where the source
  returns that status from inside the loop, and \<open>None\<close> where the loop runs to its end.
\<close>

function sane_start_init ::
  "'d usb_device \<Rightarrow> tables \<Rightarrow> int \<Rightarrow> 'd driver \<Rightarrow> SANE_Status option \<times> 'd driver" where
  "sane_start_init usb T i s =
     (if i < scannerSetupSize T then
        (case controlTransfer usb (scannerSetup T (nat i)) s of
           (result, s1) \<Rightarrow>
             if result \<noteq> 1 then (Some SANE_STATUS_IO_ERROR, s1)
             else sane_start_init usb T (i + 1) s1)
      else (None, s))"
  by pat_completeness auto
termination
  by (relation "measure (\<lambda>(usb, T, i, s). nat (scannerSetupSize T - i))") auto

declare sane_start_init.simps [simp del]

text \<open>
  The body of the setup loop up to the assignment of \<open>result\<close>: the test of the leading
  int of row \<open>i\<close> and the call it selects. \<open>None\<close>: the polling loop never ends.
\<close>

definition sane_start_setup_step ::
  "'d usb_device \<Rightarrow> int_ptr \<Rightarrow> int \<Rightarrow> 'd driver \<Rightarrow> (int \<times> 'd driver) option" where
  "sane_start_setup_step usb typePtr i s =
     (if ptr_add typePtr (i * 16) 0 = 0xfa then
        Some (bulkRead usb (ptr_add typePtr (i * 16)) s)
      else if ptr_add typePtr (i * 16) 0 = 0xfb then
        repeatedControlTransfer usb (ptr_add typePtr (i * 16)) s
      else if ptr_add typePtr (i * 16) 0 = 0xff then
        Some (writeBulk0s usb (ptr_add typePtr (i * 16)) s)
      else
        Some (controlTransfer usb (ptr_add typePtr (i * 16)) s))"

text \<open>
  The setup loop. The source's \<open>if (result != 1) { }\<close> has an empty body (a comment
  only), so both branches go on with the same state.
\<close>

function sane_start_setup ::
  "'d usb_device \<Rightarrow> int_ptr \<Rightarrow> int \<Rightarrow> int \<Rightarrow> 'd driver \<Rightarrow> 'd driver option" where
  "sane_start_setup usb typePtr typeSize i s =
     (if i < typeSize then
        (case sane_start_setup_step usb typePtr i s of
           None \<Rightarrow> None
         | Some (result, s1) \<Rightarrow>
             (let s2 = (if result \<noteq> 1 then s1 else s1)
              in sane_start_setup usb typePtr typeSize (i + 1) s2))
      else Some s)"
  by pat_completeness auto
termination
  by (relation "measure (\<lambda>(usb, typePtr, typeSize, i, s). nat (typeSize - i))") auto

declare sane_start_setup.simps [simp del]

function sane_start_calibration ::
  "'d usb_device \<Rightarrow> tables \<Rightarrow> int \<Rightarrow> 'd driver \<Rightarrow> SANE_Status option \<times> 'd driver" where
  "sane_start_calibration usb T i s =
     (if i < calibrationSize T then
        (case (if calibration T (nat i) 0 = 0xfc then
                 calibrationWrite usb T (calibration T (nat i)) s
               else if calibration T (nat i) 0 = 0xfd then
                 calibrate usb s
               else
                 controlTransfer usb (calibration T (nat i)) s) of
           (result, s1) \<Rightarrow>
             if result \<noteq> 1 then (Some SANE_STATUS_IO_ERROR, s1)
             else sane_start_calibration usb T (i + 1) s1)
      else (None, s))"
  by pat_completeness auto
termination
  by (relation "measure (\<lambda>(usb, T, i, s). nat (calibrationSize T - i))") auto

declare sane_start_calibration.simps [simp del]

text \<open>The choice "setup is different for black or for color".\<close>

definition setup_typePtr :: "tables \<Rightarrow> 'd driver \<Rightarrow> int_ptr" where
  "setup_typePtr T s = (if dpiValue s = 200 then setupBlack T else setupColor T)"

definition setup_typeSize :: "tables \<Rightarrow> 'd driver \<Rightarrow> int" where
  "setup_typeSize T s = (if dpiValue s = 200 then setupBlackSize T else setupColorSize T)"

text \<open>\<open>sane_start\<close>; \<open>None\<close> when a polling loop of the setup phase never ends.\<close>

definition sane_start ::
  "'d usb_device \<Rightarrow> tables \<Rightarrow> 'd driver \<Rightarrow> (SANE_Status \<times> 'd driver) option" where
  "sane_start usb T s =
     (case sane_start_init usb T 0 s of
        (Some st, s1) \<Rightarrow> Some (st, s1)
      | (None, s1) \<Rightarrow>
          (let typePtr = setup_typePtr T s1;
               typeSize = setup_typeSize T s1
           in case sane_start_setup usb typePtr typeSize 0 s1 of
                None \<Rightarrow> None
              | Some s2 \<Rightarrow>
                  (case sane_start_calibration usb T 0 s2 of
                     (Some st, s3) \<Rightarrow> Some (st, s3)
                   | (None, s3) \<Rightarrow> Some (SANE_STATUS_GOOD, s3))))"

section \<open>sane_read\<close>

text \<open>
  The text-mode loop \<open>largeBuffer[j + whereInBuffer] = ~largeBuffer[j + whereInBuffer]\<close>
  for \<open>j < dataAvailable\<close>.
\<close>

function sane_read_invert :: "int \<Rightarrow> 'd driver \<Rightarrow> 'd driver" where
  "sane_read_invert j s =
     (if j < dataAvailable s
      then sane_read_invert (j + 1)
             (store_byte (j + whereInBuffer s)
                (NOT (largeBuffer s (nat (j + whereInBuffer s)))) s)
      else s)"
  by pat_completeness auto
termination
  by (relation "measure (\<lambda>(j, s). nat (dataAvailable s - j))")
     (auto simp: store_byte_def)

declare sane_read_invert.simps [simp del]

text \<open>
  The copy loop \<open>buf[j] = largeBuffer[j + whereInBuffer]\<close> for \<open>j < n\<close>: the bytes the
  caller finds in \<open>buf[0 .. n - 1]\<close>.
\<close>

definition sane_read_copy :: "int \<Rightarrow> 'd driver \<Rightarrow> byte list" where
  "sane_read_copy n s = map (\<lambda>j. largeBuffer s (nat (j + whereInBuffer s))) [0..n - 1]"

text \<open>The part of the loop body that fetches: the test of the leading int and the call.\<close>

definition sane_read_step :: "'d usb_device \<Rightarrow> int_ptr \<Rightarrow> 'd driver \<Rightarrow> int \<times> 'd driver" where
  "sane_read_step usb typePtr s =
     (if ptr_add typePtr (read_i s * 16) 0 = 0xfa then
        (case bulkRead usb (ptr_add typePtr (read_i s * 16)) s of
           (result, s1) \<Rightarrow>
             (result,
              s1\<lparr>dataAvailable :=
                    push_bit 8 (ptr_add typePtr (read_i s1 * 16) 2)
                      + ptr_add typePtr (read_i s1 * 16) 3,
                  whereInBuffer := 0\<rparr>))
      else
        controlTransfer usb (ptr_add typePtr (read_i s * 16)) s)"

text \<open>
  The loop \<open>for (; i < typeSize; i++)\<close>. \<open>Some (status, written)\<close>: the source returns
  \<open>status\<close> from inside the loop, and \<open>written\<close> holds the bytes it put into \<open>buf\<close>
  (with \<open>*len\<close> their number) or is \<open>None\<close> when it wrote neither \<open>buf\<close> nor \<open>*len\<close>.
  \<open>None\<close>: the loop ran to its end.
\<close>

function sane_read_loop ::
  "'d usb_device \<Rightarrow> int_ptr \<Rightarrow> int \<Rightarrow> int \<Rightarrow> 'd driver
     \<Rightarrow> (SANE_Status \<times> byte list option) option \<times> 'd driver" where
  "sane_read_loop usb typePtr typeSize max_len s =
     (if read_i s < typeSize then
        (if dataAvailable s > 0 then
           (if dataAvailable s < max_len then
              (let s1 = (if dpiValue s = 200 then sane_read_invert 0 s else s);
                   bytes = sane_read_copy (dataAvailable s1) s1
               in (Some (SANE_STATUS_GOOD, Some bytes),
                   s1\<lparr>dataAvailable := 0, whereInBuffer := 0\<rparr>))
            else
              (let bytes = sane_read_copy max_len s
               in (Some (SANE_STATUS_GOOD, Some bytes),
                   s\<lparr>dataAvailable := dataAvailable s - max_len,
                     whereInBuffer := whereInBuffer s + max_len\<rparr>)))
         else
           (case sane_read_step usb typePtr s of
              (result, s1) \<Rightarrow>
                if result \<noteq> 1 then (Some (SANE_STATUS_IO_ERROR, None), s1)
                else sane_read_loop usb typePtr typeSize max_len
                       (s1\<lparr>read_i := read_i s1 + 1\<rparr>)))
      else (None, s))"
  by pat_completeness auto

definition sane_read ::
  "'d usb_device \<Rightarrow> tables \<Rightarrow> int \<Rightarrow> 'd driver
     \<Rightarrow> (SANE_Status \<times> byte list option) proc \<times> 'd driver" where
  "sane_read usb T max_len s =
     (let typePtr = (if dpiValue s = 200 then scanBlack T else scanColor T);
          typeSize = (if dpiValue s = 200 then scanBlackSize T else scanColorSize T)
      in case sane_read_loop usb typePtr typeSize max_len s of
           (Some r, s1) \<Rightarrow> (Return r, s1)
         | (None, s1) \<Rightarrow>
             (case finalizeScanner usb T s1 of
                (Exit c, s2) \<Rightarrow> (Exit c, s2)
              | (Return r, s2) \<Rightarrow> (Return (SANE_STATUS_EOF, None), s2)))"

text \<open>
  A caller that drains the scanner: it calls \<open>sane_read\<close> with the same capacity until
  the status is no longer \<open>SANE_STATUS_GOOD\<close> (at most \<open>n\<close> calls) and concatenates
  what the calls wrote. The result is the concatenation, the status that ended the
  drain (\<open>None\<close> when the \<open>n\<close> calls did not reach one or the process exited), and the
  final state.
\<close>

fun drain ::
  "nat \<Rightarrow> 'd usb_device \<Rightarrow> tables \<Rightarrow> int \<Rightarrow> 'd driver
     \<Rightarrow> byte list \<times> SANE_Status option \<times> 'd driver" where
  "drain 0 usb T max_len s = ([], None, s)"
| "drain (Suc n) usb T max_len s =
     (case sane_read usb T max_len s of
        (Exit c, s1) \<Rightarrow> ([], None, s1)
      | (Return (SANE_STATUS_GOOD, written), s1) \<Rightarrow>
          (case drain n usb T max_len s1 of
             (rest, st, s2) \<Rightarrow> ((case written of None \<Rightarrow> [] | Some bytes \<Rightarrow> bytes) @ rest, st, s2))
      | (Return (st, written), s1) \<Rightarrow> ([], Some st, s1))"

section \<open>Concrete scenarios\<close>

text \<open>
  A table written out as a list of ints; the memory after it reads as 0 (the scenarios
  never look there).
\<close>

definition ptr_of :: "int list \<Rightarrow> int_ptr" where
  "ptr_of xs = (\<lambda>k. if k < length xs then xs ! k else 0)"

definition no_rows :: "nat \<Rightarrow> int_ptr" where
  "no_rows = (\<lambda>r k. 0)"

text \<open>
  A text scan (200 dpi) of two rows: a bulk read of declared size 3, then a control
  transfer without payload. All other tables are empty.
\<close>

definition text_tables :: tables where
  "text_tables =
     \<lparr>scannerSetup = no_rows, scannerSetupSize = 0,
      setupBlack = ptr_of [], setupBlackSize = 0,
      setupColor = ptr_of [], setupColorSize = 0,
      calibration = no_rows, calibrationSize = 0,
      calibWrite = ptr_of [], calibWriteSize = 0,
      scanBlack = ptr_of [0xfa, 0x81, 0, 3, 0, 0, 0, 0, 0, 0, 0, 0, 0, 0, 0, 0,
                          0x40, 0x0c, 0, 0, 0, 0, 0, 0, 0, 0, 0, 0, 0, 0, 0, 0],
      scanBlackSize = 2,
      scanColor = ptr_of [], scanColorSize = 0,
      finalize = no_rows, finalizeSize = 0\<rparr>"

text \<open>
  A device that answers every bulk read with the three bytes \<open>00 FF 0F\<close> and reports
  every request as done in full.
\<close>

definition text_device :: "unit usb_device" where
  "text_device call d =
     (case call of
        BulkRead ep sz \<Rightarrow> (sz, [0x00, 0xFF, 0x0F], d)
      | ControlMsg requestType request val index bytes sz \<Rightarrow> (sz, [], d)
      | BulkWrite ep bytes sz \<Rightarrow> (sz, [], d))"

definition text_start :: "unit driver" where
  "text_start =
     \<lparr>deviceHandle = (), dpiValue = 200, largeBuffer = (\<lambda>k. 0), stores = [], trace = [],
      dataAvailable = 0, whereInBuffer = 0, read_i = 0\<rparr>"

text \<open>A color scan (100 dpi) whose only row is a bulk read of declared size 3.\<close>

definition last_row_tables :: tables where
  "last_row_tables =
     text_tables
       \<lparr>scanColor := ptr_of [0xfa, 0x81, 0, 3, 0, 0, 0, 0, 0, 0, 0, 0, 0, 0, 0, 0],
        scanColorSize := 1\<rparr>"

text \<open>A device on which every control transfer fails, and a finalize table of two rows.\<close>

definition failing_device :: "unit usb_device" where
  "failing_device call d =
     (case call of
        BulkRead ep sz \<Rightarrow> (sz, [], d)
      | ControlMsg requestType request val index bytes sz \<Rightarrow> (- 1, [], d)
      | BulkWrite ep bytes sz \<Rightarrow> (sz, [], d))"

definition finalize_tables :: tables where
  "finalize_tables =
     text_tables\<lparr>finalize := (\<lambda>r. ptr_of [0x40, 0x0c, 0x90, 0, 0, 0, 0, 0]), finalizeSize := 2\<rparr>"

text \<open>
  A row for \<open>writeBulk0s\<close>: endpoint 2 in \<open>data[1]\<close>, and the size 5 in \<open>data[2]\<close>
  (high byte) and \<open>data[3]\<close> (low byte), as \<open>bulkRead\<close> and \<open>calibrationWrite\<close> read it.
\<close>

definition zero_write_row :: int_ptr where
  "zero_write_row = ptr_of [0xff, 2, 0, 5, 0, 0, 0, 0, 0, 0, 0, 0, 0, 0, 0, 0]"

section \<open>Attempts of the polling loop\<close>

text \<open>
  For stating what \<open>repeatedControlTransfer\<close> does: \<open>poll_state ... n s\<close> is the state
  after \<open>n\<close> control transfers issued from \<open>s\<close>; \<open>poll_runs ... n s\<close> says that the
  loop makes at least \<open>n\<close> attempts and none of them reports an error (before each of
  them the first byte of the buffer differs from \<open>checkCharacter\<close>, and the call returns
  a value \<open>\<ge> 0\<close>); \<open>poll_ends ... s y\<close> says that for some \<open>n\<close> the loop makes these
  \<open>n\<close> attempts and then either finds the byte (\<open>y\<close> is 1 and the state after \<open>n\<close>
  attempts) or makes one more attempt, whose call reports an error (\<open>y\<close> is 0 and the
  state after \<open>n + 1\<close> attempts).
\<close>

definition poll_state ::
  "'d usb_device \<Rightarrow> int \<Rightarrow> int \<Rightarrow> int \<Rightarrow> int \<Rightarrow> int \<Rightarrow> nat \<Rightarrow> 'd driver \<Rightarrow> 'd driver" where
  "poll_state usb requestType request val index sz n s =
     ((\<lambda>s. snd (usb_control_msg usb requestType request val index sz s)) ^^ n) s"

definition poll_runs ::
  "'d usb_device \<Rightarrow> int \<Rightarrow> int \<Rightarrow> int \<Rightarrow> int \<Rightarrow> int \<Rightarrow> byte \<Rightarrow> nat \<Rightarrow> 'd driver \<Rightarrow> bool" where
  "poll_runs usb requestType request val index sz checkCharacter n s =
     list_all
       (\<lambda>k. largeBuffer (poll_state usb requestType request val index sz k s) 0 \<noteq> checkCharacter
            \<and> 0 \<le> fst (usb_control_msg usb requestType request val index sz
                          (poll_state usb requestType request val index sz k s)))
       [0..<n]"

definition poll_ends ::
  "'d usb_device \<Rightarrow> int \<Rightarrow> int \<Rightarrow> int \<Rightarrow> int \<Rightarrow> int \<Rightarrow> byte \<Rightarrow> 'd driver \<Rightarrow> int \<times> 'd driver \<Rightarrow> bool" where
  "poll_ends usb rt rq v ix sz c s y =
     (\<exists>n. poll_runs usb rt rq v ix sz c n s \<and>
           (y = (1, poll_state usb rt rq v ix sz n s)
              \<and> largeBuffer (poll_state usb rt rq v ix sz n s) 0 = c
            \<or> y = (0, poll_state usb rt rq v ix sz (Suc n) s)
              \<and> largeBuffer (poll_state usb rt rq v ix sz n s) 0 \<noteq> c
              \<and> fst (usb_control_msg usb rt rq v ix sz (poll_state usb rt rq v ix sz n s)) < 0))"

text \<open>
  A polling row: \<open>data[1]\<close>, \<open>data[2]\<close> the request type and request, \<open>data[7]\<close> the
  size 1, \<open>data[9]\<close> the byte waited for (\<open>0x55\<close>); a device that answers the first two
  control transfers with the byte 0 and the later ones with \<open>0x55\<close>. \<open>scan_poll_row\<close>
  is a polling row of size \<open>0x100\<close> that, read as a plain control transfer, has size 0.
  \<open>ready_row\<close> waits for the byte 0.
\<close>

definition poll_row :: int_ptr where
  "poll_row = ptr_of [0xfb, 0xc0, 0x0c, 0x8e, 0, 0, 0, 1, 0, 0x55, 0, 0, 0, 0, 0, 0]"

definition poll_device :: "nat usb_device" where
  "poll_device call d =
     (case call of
        BulkRead ep sz \<Rightarrow> (sz, [], d)
      | ControlMsg requestType request val index bytes sz \<Rightarrow>
          (1, [if d < 2 then 0x00 else 0x55], Suc d)
      | BulkWrite ep bytes sz \<Rightarrow> (sz, [], d))"

definition poll_start :: "nat driver" where
  "poll_start =
     \<lparr>deviceHandle = 0, dpiValue = 100, largeBuffer = (\<lambda>k. 0), stores = [], trace = [],
      dataAvailable = 0, whereInBuffer = 0, read_i = 0\<rparr>"

definition scan_poll_row :: int_ptr where
  "scan_poll_row = ptr_of [0xfb, 0xc0, 0x0c, 0x8e, 0, 0, 0, 0, 1, 0x55, 0, 0, 0, 0, 0, 0]"

definition ready_row :: int_ptr where
  "ready_row = ptr_of [0xfb, 0xc0, 0x0c, 0x8e, 0, 0, 0, 1, 0, 0x00, 0, 0, 0, 0, 0, 0]"

section \<open>The interpreter as a dispatch on the leading int\<close>

text \<open>
  The four transfer primitives a table row can select, the selection as the
  specification words it (\<open>setup_dispatch\<close>: \<open>0xFA\<close> bulk read, \<open>0xFB\<close> polling,
  \<open>0xFF\<close> zero write, anything else a plain control transfer), the selection with two
  cases only (\<open>scan_dispatch\<close>), and the call of the selected primitive.
\<close>

datatype primitive = PBulkRead | PRepeatedControlTransfer | PWriteBulk0s | PControlTransfer

definition setup_dispatch :: "int \<Rightarrow> primitive" where
  "setup_dispatch opcode =
     (if opcode = 0xFA then PBulkRead
      else if opcode = 0xFB then PRepeatedControlTransfer
      else if opcode = 0xFF then PWriteBulk0s
      else PControlTransfer)"

definition scan_dispatch :: "int \<Rightarrow> primitive" where
  "scan_dispatch opcode = (if opcode = 0xFA then PBulkRead else PControlTransfer)"

definition run_primitive ::
  "'d usb_device \<Rightarrow> primitive \<Rightarrow> int_ptr \<Rightarrow> 'd driver \<Rightarrow> (int \<times> 'd driver) option" where
  "run_primitive usb p data s =
     (case p of
        PBulkRead \<Rightarrow> Some (bulkRead usb data s)
      | PRepeatedControlTransfer \<Rightarrow> repeatedControlTransfer usb data s
      | PWriteBulk0s \<Rightarrow> Some (writeBulk0s usb data s)
      | PControlTransfer \<Rightarrow> Some (controlTransfer usb data s))"

text \<open>
  One round of the setup loop on the state of the rounds before (\<open>None\<close> once a polling
  loop has not ended): the row's primitive runs and its result is dropped.
\<close>

definition sane_start_setup_row ::
  "'d usb_device \<Rightarrow> int_ptr \<Rightarrow> int \<Rightarrow> 'd driver option \<Rightarrow> 'd driver option" where
  "sane_start_setup_row usb typePtr i so =
     (case so of
        None \<Rightarrow> None
      | Some s \<Rightarrow> map_option snd (sane_start_setup_step usb typePtr i s))"


text \<open>
  A device like \<open>text_device\<close>, except that every control transfer with request
  \<open>0x0e\<close> fails; tables with one initialize row and one calibration row (request
  \<open>0x04\<close>), two setup rows for either mode (request \<open>0x0e\<close>), and the scan rows of
  \<open>text_tables\<close>; and a start state in color mode.
\<close>

definition picky_device :: "unit usb_device" where
  "picky_device call d =
     (case call of
        BulkRead ep sz \<Rightarrow> (sz, [0x00, 0xFF, 0x0F], d)
      | ControlMsg requestType request val index bytes sz \<Rightarrow>
          (if request = 0x0e then - 1 else sz, [], d)
      | BulkWrite ep bytes sz \<Rightarrow> (sz, [], d))"

definition session_tables :: tables where
  "session_tables =
     text_tables
       \<lparr>scannerSetup := (\<lambda>r. ptr_of [0x40, 0x04, 0, 0, 0, 0, 0, 0]),
        scannerSetupSize := 1,
        setupBlack := ptr_of [0x40, 0x0e, 0, 0, 0, 0, 0, 0, 0, 0, 0, 0, 0, 0, 0, 0,
                              0x40, 0x0e, 1, 0, 0, 0, 0, 0, 0, 0, 0, 0, 0, 0, 0, 0],
        setupBlackSize := 2,
        setupColor := ptr_of [0x40, 0x0e, 0, 0, 0, 0, 0, 0, 0, 0, 0, 0, 0, 0, 0, 0,
                              0x40, 0x0e, 1, 0, 0, 0, 0, 0, 0, 0, 0, 0, 0, 0, 0, 0],
        setupColorSize := 2,
        calibration := (\<lambda>r. ptr_of [0x40, 0x04, 1, 0, 0, 0, 0, 0]),
        calibrationSize := 1\<rparr>"

definition color_start :: "unit driver" where
  "color_start = text_start\<lparr>dpiValue := 100\<rparr>"



section \<open>What the transfer primitives leave alone\<close>

text \<open>
  The mode and the three static variables of \<open>sane_read\<close>. No transfer primitive
  assigns to any of them.
\<close>

definition statics :: "'d driver \<Rightarrow> int \<times> int \<times> int \<times> int" where
  "statics s = (dpiValue s, dataAvailable s, whereInBuffer s, read_i s)"

lemma statics_store_byte [simp]: "statics (store_byte k v s) = statics s"
  by (simp add: statics_def store_byte_def)

lemma statics_calibrate_inner [simp]: "statics (calibrate_inner j i temp s) = statics s"
  by (induction j i temp s rule: calibrate_inner.induct) (subst calibrate_inner.simps, simp)

lemma statics_calibrate_outer [simp]: "statics (calibrate_outer i incr sz s) = statics s"
  by (induction i incr sz s rule: calibrate_outer.induct)
     (subst calibrate_outer.simps, simp add: Let_def)

lemma statics_calibrationWrite_zero [simp]: "statics (calibrationWrite_zero j s) = statics s"
  by (induction j s rule: calibrationWrite_zero.induct) (subst calibrationWrite_zero.simps, simp)

lemma statics_calibrationWrite_copy [simp]:
  "statics (calibrationWrite_copy cw cwSize j s) = statics s"
  by (induction cw cwSize j s rule: calibrationWrite_copy.induct)
     (subst calibrationWrite_copy.simps, simp)

lemma statics_writeBulk0s_zero [simp]: "statics (writeBulk0s_zero i sz s) = statics s"
  by (induction i sz s rule: writeBulk0s_zero.induct) (subst writeBulk0s_zero.simps, simp)

lemma statics_controlTransfer_copy [simp]: "statics (controlTransfer_copy data i sz s) = statics s"
  by (induction data i sz s rule: controlTransfer_copy.induct)
     (subst controlTransfer_copy.simps, simp)

lemma statics_usb_control_msg [simp]:
  "statics (snd (usb_control_msg usb requestType request val index sz s)) = statics s"
  by (simp add: usb_control_msg_def statics_def Let_def case_prod_unfold)

lemma statics_usb_bulk_read [simp]: "statics (snd (usb_bulk_read usb ep sz s)) = statics s"
  by (simp add: usb_bulk_read_def statics_def Let_def case_prod_unfold)

lemma statics_usb_bulk_write [simp]: "statics (snd (usb_bulk_write usb ep sz s)) = statics s"
  by (simp add: usb_bulk_write_def statics_def Let_def case_prod_unfold)

lemma snd_case_prod_pair: "snd (case p of (a, b) \<Rightarrow> (f a b, b)) = snd p"
  by (cases p) simp

lemma snd_case_prod_if: "snd (case p of (a, b) \<Rightarrow> if c a then (x, b) else (y, b)) = snd p"
  by (cases p) simp

lemma statics_calibrate [simp]: "statics (snd (calibrate usb s)) = statics s"
  by (simp add: calibrate_def Let_def snd_case_prod_pair)

lemma statics_calibrationWrite [simp]: "statics (snd (calibrationWrite usb T data s)) = statics s"
  by (simp add: calibrationWrite_def Let_def snd_case_prod_pair)

lemma statics_bulkRead [simp]: "statics (snd (bulkRead usb data s)) = statics s"
  by (simp add: bulkRead_def Let_def snd_case_prod_pair)


lemma statics_controlTransfer [simp]: "statics (snd (controlTransfer usb data s)) = statics s"
  by (simp add: controlTransfer_def Let_def snd_case_prod_if)

lemma bulkRead_statics: "bulkRead usb data s = (r, s1) \<Longrightarrow> statics s1 = statics s"
  using statics_bulkRead [of usb data s] by simp

lemma controlTransfer_statics: "controlTransfer usb data s = (r, s1) \<Longrightarrow> statics s1 = statics s"
  using statics_controlTransfer [of usb data s] by simp

lemma statics_read_i: "statics s1 = statics s \<Longrightarrow> read_i s1 = read_i s"
  by (simp add: statics_def)

lemma sane_read_step_read_i:
  assumes a: "sane_read_step usb typePtr s = (result, s1)"
  shows "read_i s1 = read_i s"
proof (cases "ptr_add typePtr (read_i s * 16) 0 = 0xfa")
  case True
  obtain r b where b: "bulkRead usb (ptr_add typePtr (read_i s * 16)) s = (r, b)"
    by fastforce
  from a True b have "read_i s1 = read_i b"
    by (auto simp: sane_read_step_def)
  then show ?thesis
    using statics_read_i [OF bulkRead_statics [OF b]] by simp
next
  case False
  with a have "controlTransfer usb (ptr_add typePtr (read_i s * 16)) s = (result, s1)"
    by (simp add: sane_read_step_def)
  then show ?thesis
    by (rule statics_read_i [OF controlTransfer_statics])
qed

text \<open>The loop of \<open>sane_read\<close> ends: every round that goes on increments \<open>i\<close>.\<close>

termination sane_read_loop
  apply (relation "measure (\<lambda>(usb, typePtr, typeSize, max_len, s). nat (typeSize - read_i s))")
   apply simp
  apply (frule sane_read_step_read_i [OF sym])
  apply simp
  done

declare sane_read_loop.simps [simp del]

section \<open>The read pump in text mode\<close>

lemma sane_read_loop_serve_capacity:
  assumes "read_i s < typeSize" and "0 < dataAvailable s" and "max_len \<le> dataAvailable s"
  shows "fst (sane_read_loop usb typePtr typeSize max_len s)
           = Some (SANE_STATUS_GOOD, Some (sane_read_copy max_len s))"
  using assms by (subst sane_read_loop.simps) (simp add: Let_def)

text \<open>
  Claim C1. In text mode every served byte should be the complement of the byte the
  device sent. The scenario: the device sends \<open>00 FF 0F\<close>. A call with capacity 2 is
  served by the branch for "at least \<open>max_len\<close> bytes left", which copies without
  inverting: the caller gets \<open>00 FF\<close>, and the buffer still holds the device's bytes.
  A call with a capacity above 3 is served by the other branch and gets the complement
  \<open>FF 00 F0\<close>.
\<close>

theorem sane_read_text_capacity_branch_not_inverted:
  "fst (sane_read text_device text_tables 2 text_start)
     = Return (SANE_STATUS_GOOD, Some [0x00, 0xFF])
   \<and> buffer_bytes (snd (sane_read text_device text_tables 2 text_start)) 3
     = [0x00, 0xFF, 0x0F]
   \<and> fst (sane_read text_device text_tables 1000 text_start)
     = Return (SANE_STATUS_GOOD, Some [0xFF, 0x00, 0xF0])"
  by code_simp

text \<open>
  Claim C2. Draining with any capacity should give the same bytes, all bytes the device
  sent. In the same scenario a drain with capacity 2 and a drain with capacity 65535
  both reach the end of the stream, and give different bytes. And in color mode, when
  the bulk read is the last row of the scan table, the loop of \<open>sane_read\<close> ends right
  after the read: the drain issues the bulk read and reaches the end of the stream
  without serving any of the three bytes.
\<close>

theorem drain_text_depends_on_capacity:
  "fst (drain 10 text_device text_tables 2 text_start) = [0x00, 0xFF, 0xF0]
   \<and> fst (snd (drain 10 text_device text_tables 2 text_start)) = Some SANE_STATUS_EOF
   \<and> fst (drain 10 text_device text_tables 65535 text_start) = [0xFF, 0x00, 0xF0]
   \<and> fst (snd (drain 10 text_device text_tables 65535 text_start)) = Some SANE_STATUS_EOF
   \<and> fst (drain 10 text_device last_row_tables 1000 (text_start\<lparr>dpiValue := 100\<rparr>)) = []
   \<and> fst (snd (drain 10 text_device last_row_tables 1000 (text_start\<lparr>dpiValue := 100\<rparr>)))
       = Some SANE_STATUS_EOF
   \<and> trace (snd (snd (drain 10 text_device last_row_tables 1000 (text_start\<lparr>dpiValue := 100\<rparr>))))
       = [BulkRead 0x81 3]"
  by code_simp

section \<open>finalizeScanner\<close>

lemma controlTransfer_result:
  "fst (controlTransfer usb data s) = 0 \<or> fst (controlTransfer usb data s) = 1"
  by (simp add: controlTransfer_def Let_def case_prod_unfold)

lemma finalizeScanner_loop_returns: "fst (finalizeScanner_loop usb T i s) = Return 1"
proof (induction usb T i s rule: finalizeScanner_loop.induct)
  case (1 usb T i s)
  show ?case
  proof (cases "i < finalizeSize T")
    case True
    obtain r s1 where c: "controlTransfer usb (finalize T (nat i)) s = (r, s1)"
      by fastforce
    with controlTransfer_result [of usb "finalize T (nat i)" s] have "\<not> r < 0"
      by auto
    with "1.IH" [OF True c [symmetric]] True c show ?thesis
      by (subst finalizeScanner_loop.simps) simp
  next
    case False
    then show ?thesis
      by (subst finalizeScanner_loop.simps) simp
  qed
qed

text \<open>
  Claim C3. A failed control transfer of the finalize table should end the process.
  The scenario: every control transfer fails, so \<open>controlTransfer\<close> returns 0 on the
  first row. \<open>finalizeScanner\<close> tests \<open>result < 0\<close>, which 0 does not satisfy: it goes on
  to the second row, issues its transfer too, and returns 1.
\<close>

theorem finalizeScanner_failed_transfer_returns:
  "fst (controlTransfer failing_device (finalize finalize_tables 0) text_start) = 0
   \<and> fst (finalizeScanner failing_device finalize_tables text_start) = Return 1
   \<and> length (trace (snd (finalizeScanner failing_device finalize_tables text_start))) = 2"
  by code_simp

section \<open>writeBulk0s\<close>

lemma writeBulk0s_zero_stores: "stores (writeBulk0s_zero i sz s) = stores s @ [i..sz]"
proof (induction i sz s rule: writeBulk0s_zero.induct)
  case (1 i sz s)
  show ?case
  proof (cases "i \<le> sz")
    case True
    with "1.IH" show ?thesis
      by (subst writeBulk0s_zero.simps) (simp add: store_byte_def upto_rec1 [of i sz])
  next
    case False
    then show ?thesis
      by (subst writeBulk0s_zero.simps) simp
  qed
qed

lemma stores_usb_bulk_write: "stores (snd (usb_bulk_write usb ep sz s)) = stores s"
  by (simp add: usb_bulk_write_def Let_def case_prod_unfold)

lemma writeBulk0s_stores:
  "stores (snd (writeBulk0s usb data s)) = stores s @ [0..writeBulk0s_size data]"
  by (simp add: writeBulk0s_def Let_def snd_case_prod_pair stores_usb_bulk_write
        writeBulk0s_zero_stores)

lemma upto_all_in_largeBuffer: "Ball {0..sz} in_largeBuffer \<longleftrightarrow> sz \<le> 0xFFFE"
  by (auto simp: in_largeBuffer_def largeBuffer_size_def)

text \<open>
  Claim C7. The size of the zero write should be the row's declared size, here 5. The
  source adds the endpoint \<open>data[1]\<close> where the low size byte \<open>data[3]\<close> belongs: the
  size it computes is 2, and the one bulk write it issues carries 2 bytes.
\<close>

theorem writeBulk0s_size_uses_endpoint:
  "push_bit 8 (zero_write_row 2) + zero_write_row 3 = 5
   \<and> writeBulk0s_size zero_write_row = 2
   \<and> trace (snd (writeBulk0s text_device zero_write_row text_start)) = [BulkWrite 2 [0, 0] 2]"
  by code_simp

text \<open>
  Claim C10. The zero-fill loop of \<open>writeBulk0s\<close> runs \<open>for (i = 0; i <= size; ++i)\<close>:
  it stores to the indices \<open>0, ..., size\<close>, which are \<open>size + 1\<close> stores. All of them lie
  inside \<open>largeBuffer\<close> exactly when \<open>size \<le> 0xFFFE\<close>; for \<open>size = 0xFFFF\<close> the last
  store goes to index \<open>0xFFFF\<close>, one past the end of the array.
\<close>

theorem writeBulk0s_zero_fill_bounds:
  "stores (snd (writeBulk0s usb data s)) = stores s @ [0..writeBulk0s_size data]
   \<and> length [0..writeBulk0s_size data] = nat (writeBulk0s_size data + 1)
   \<and> ((\<forall>k\<in>set [0..writeBulk0s_size data]. in_largeBuffer k)
        \<longleftrightarrow> writeBulk0s_size data \<le> 0xFFFE)
   \<and> (writeBulk0s_size data = 0xFFFF \<longrightarrow>
        last (stores (snd (writeBulk0s usb data s))) = 0xFFFF \<and> \<not> in_largeBuffer 0xFFFF)"
proof -
  have a: "last (stores s @ [0..0xFFFF]) = (0xFFFF :: int)"
    by (simp add: upto_rec2 [of 0 "0xFFFF"])
  have b: "\<not> in_largeBuffer 0xFFFF"
    by (simp add: in_largeBuffer_def largeBuffer_size_def)
  show ?thesis
    using a b by (simp add: writeBulk0s_stores upto_all_in_largeBuffer)
qed

theorem writeBulk0s_zero_fill_bounds_witness:
  "writeBulk0s_size (ptr_of [0xff, 0xff, 0xff]) = 0xFFFF
   \<and> last (stores (snd (writeBulk0s text_device (ptr_of [0xff, 0xff, 0xff]) text_start))) = 0xFFFF
   \<and> \<not> in_largeBuffer 0xFFFF
   \<and> writeBulk0s_size zero_write_row = 2
   \<and> stores (snd (writeBulk0s text_device zero_write_row text_start)) = [0, 1, 2]
   \<and> in_largeBuffer 0 \<and> in_largeBuffer 1 \<and> in_largeBuffer 2"
proof -
  have big: "writeBulk0s_size (ptr_of [0xff, 0xff, 0xff]) = 0xFFFF"
    by (simp add: writeBulk0s_size_def ptr_of_def)
  have small: "writeBulk0s_size zero_write_row = 2"
    by (simp add: writeBulk0s_size_def zero_write_row_def ptr_of_def)
  have two: "[0..2] = [0, 1, 2 :: int]"
    by (simp add: upto_rec1)
  have none: "stores text_start = []"
    by (simp add: text_start_def)
  have l: "last [0..0xFFFF] = (0xFFFF :: int)"
    by (simp add: upto_rec2 [of 0 "0xFFFF"])
  show ?thesis
    using writeBulk0s_zero_fill_bounds [of text_device "ptr_of [0xff, 0xff, 0xff]" text_start]
      writeBulk0s_zero_fill_bounds [of text_device zero_write_row text_start]
    by (simp add: big small two none l)
qed

section \<open>calibrate\<close>

lemma calibrate_inner_state:
  assumes "0 \<le> j" and "0 \<le> i" and "i + 64 \<le> 0xffff"
  shows "calibrate_inner j i temp s =
           s\<lparr>largeBuffer := (\<lambda>n. if i + j \<le> int n \<and> int n < i + 64 then temp else largeBuffer s n),
             stores := stores s @ map (\<lambda>x. x + i) [j..63]\<rparr>"
  using assms
proof (induction j i temp s rule: calibrate_inner.induct)
  case (1 j i temp s)
  show ?case
  proof (cases "j < 64")
    case True
    have u: "[j..63] = j # [j + 1..63]"
      using True by (simp add: upto_rec1)
    have "calibrate_inner (j + 1) i temp (store_byte (j + i) temp s) =
      (store_byte (j + i) temp s)\<lparr>largeBuffer := (\<lambda>n. if i + (j + 1) \<le> int n \<and> int n < i + 64 then temp else largeBuffer (store_byte (j + i) temp s) n),
             stores := stores (store_byte (j + i) temp s) @ map (\<lambda>x. x + i) [j + 1..63]\<rparr>"
      using "1.IH" [OF True] "1.prems" by simp
    also have "\<dots> = s\<lparr>largeBuffer := (\<lambda>n. if i + j \<le> int n \<and> int n < i + 64 then temp else largeBuffer s n),
             stores := stores s @ map (\<lambda>x. x + i) [j..63]\<rparr>"
    proof -
      have lb: "largeBuffer (store_byte (j + i) temp s) = (largeBuffer s)(nat (j + i) := temp)"
        using True "1.prems"
        by (simp add: store_byte_def in_largeBuffer_def largeBuffer_size_def)
      have f: "(\<lambda>n. if i + (j + 1) \<le> int n \<and> int n < i + 64 then temp
                    else largeBuffer (store_byte (j + i) temp s) n)
               = (\<lambda>n. if i + j \<le> int n \<and> int n < i + 64 then temp else largeBuffer s n)"
      proof (rule ext)
        fix n
        show "(if i + (j + 1) \<le> int n \<and> int n < i + 64 then temp
                else largeBuffer (store_byte (j + i) temp s) n)
              = (if i + j \<le> int n \<and> int n < i + 64 then temp else largeBuffer s n)"
          using True "1.prems" by (cases "int n = i + j") (auto simp: lb)
      qed
      show ?thesis
        unfolding f u by (simp add: store_byte_def)
    qed
    finally show ?thesis
      using True by (subst calibrate_inner.simps) simp
  next
    case False
    then have "(\<lambda>n. if i + j \<le> int n \<and> int n < i + 64 then temp else largeBuffer s n) = largeBuffer s"
      by (auto simp: fun_eq_iff)
    with False show ?thesis
      by (subst calibrate_inner.simps) simp
  qed
qed


lemma calibrate_outer_state:
  assumes "k \<le> 768"
  shows "calibrate_outer (64 * int k) (int (k mod 256)) 0xc000 s =
           s\<lparr>largeBuffer := (\<lambda>n. if 64 * k \<le> n \<and> n < 0xc000 then of_nat (n div 64 mod 256)
                                 else largeBuffer s n),
             stores := stores s @ [64 * int k..0xbfff]\<rparr>"
  using assms
proof (induction "768 - k" arbitrary: k s)
  case 0
  then have k: "k = 768" by simp
  have "(\<lambda>n. if 64 * k \<le> n \<and> n < 0xc000 then of_nat (n div 64 mod 256)
                                 else largeBuffer s n) = largeBuffer s"
    by (auto simp: fun_eq_iff k)
  then show ?case
    by (subst calibrate_outer.simps) (simp add: k)
next
  case (Suc m)
  then have k: "k < 768" and m: "m = 768 - Suc k" and k': "Suc k \<le> 768"
    by simp_all
  define s1 where "s1 = calibrate_inner 0 (64 * int k) (word_of_int (int (k mod 256))) s"
  have s1: "s1 = s\<lparr>largeBuffer := (\<lambda>n. if 64 * int k + 0 \<le> int n \<and> int n < 64 * int k + 64
                                        then word_of_int (int (k mod 256)) else largeBuffer s n),
             stores := stores s @ map (\<lambda>x. x + 64 * int k) [0..63]\<rparr>"
    unfolding s1_def using k by (intro calibrate_inner_state) simp_all
  have incr: "(if int (k mod 256) + 1 > 0xff then 0 else int (k mod 256) + 1) = int (Suc k mod 256)"
    using mod_less_divisor [of 256 k] by (auto simp: mod_Suc simp del: mod_less_divisor)
  have unfold: "calibrate_outer (64 * int k) (int (k mod 256)) 0xc000 s
                  = calibrate_outer (64 * int (Suc k)) (int (Suc k mod 256)) 0xc000 s1"
  proof -
    have c: "64 * int k < 0xc000"
      using k by simp
    have e: "64 * int k + 64 = 64 * int (Suc k)"
      by simp
    show ?thesis
      by (subst calibrate_outer.simps) (simp only: c if_True Let_def incr e s1_def)
  qed
  have st: "map (\<lambda>x. x + 64 * int k) [0..63] @ [64 + 64 * int k..0xbfff] = [64 * int k..0xbfff]"
  proof -
    have "map (\<lambda>x. x + 64 * int k) [0..63] = [64 * int k..64 * int k + 63]"
      by (rule nth_equalityI) simp_all
    moreover have "[64 * int k..0xbfff] = [64 * int k..64 * int k + 63] @ [64 * int k + 63 + 1..0xbfff]"
      using k by (intro upto_split2) simp_all
    ultimately show ?thesis by (simp add: algebra_simps)
  qed
  have f: "(\<lambda>n. if 64 * Suc k \<le> n \<and> n < 0xc000 then of_nat (n div 64 mod 256)
                else largeBuffer s1 n)
           = (\<lambda>n. if 64 * k \<le> n \<and> n < 0xc000 then of_nat (n div 64 mod 256)
                else largeBuffer s n)"
  proof (rule ext)
    fix n
    have "n div 64 = k" if "64 * k \<le> n" "n < 64 * k + 64"
      using that by simp
    then show "(if 64 * Suc k \<le> n \<and> n < 0xc000 then of_nat (n div 64 mod 256)
                else largeBuffer s1 n)
           = (if 64 * k \<le> n \<and> n < 0xc000 then of_nat (n div 64 mod 256)
                else largeBuffer s n)"
      using k by (auto simp: s1)
  qed
  show ?case
    unfolding unfold Suc.hyps(1) [OF m k'] f
    by (simp add: s1 st)
qed


lemma calibrate_outer_buffer_bytes:
  "buffer_bytes (calibrate_outer 0 0 0xc000 s) 0xc000 = map calibrate_pattern [0..<0xC000]"
  using calibrate_outer_state [of 0 s]
  by (simp add: buffer_bytes_def calibrate_pattern_def)

text \<open>
  Claim C9. \<open>calibrate\<close> stores to the \<open>0xC000\<close> indices \<open>0, ..., 0xBFFF\<close> and leaves
  there the pattern of 64-byte blocks, block \<open>k\<close> filled with \<open>k mod 256\<close>; the rest of
  the buffer is as before. It issues one bulk write, to endpoint 2, of these \<open>0xC000\<close>
  bytes, and returns 1 when the device reports \<open>0xC000\<close> bytes written, 2 when it
  reports another positive count, and 0 otherwise.
\<close>

theorem calibrate_ramp:
  "largeBuffer (snd (calibrate usb s))
     = (\<lambda>n. if n < 0xC000 then calibrate_pattern n else largeBuffer s n)
   \<and> unat (calibrate_pattern n) = n div 64 mod 256
   \<and> stores (snd (calibrate usb s)) = stores s @ [0..0xBFFF]
   \<and> trace (snd (calibrate usb s))
     = trace s @ [BulkWrite 2 (map calibrate_pattern [0..<0xC000]) 0xC000]
   \<and> fst (calibrate usb s)
     = (let written = fst (usb (BulkWrite 2 (map calibrate_pattern [0..<0xC000]) 0xC000)
                                (deviceHandle s))
        in if written = 0xC000 then 1 else if 0 < written then 2 else 0)"
proof -
  define s1 where "s1 = calibrate_outer 0 0 0xc000 s"
  have s1: "s1 = s\<lparr>largeBuffer := (\<lambda>n. if n < 0xC000 then calibrate_pattern n else largeBuffer s n),
                    stores := stores s @ [0..0xbfff]\<rparr>"
    unfolding s1_def calibrate_pattern_def using calibrate_outer_state [of 0 s]
    by simp
  have bytes: "buffer_bytes s1 0xc000 = map calibrate_pattern [0..<0xC000]"
    unfolding s1_def by (rule calibrate_outer_buffer_bytes)
  have c: "calibrate usb s =
             (case usb_bulk_write usb 2 0xc000 s1 of
                (result, s2) \<Rightarrow> (if result > 0 then (if result = 0xc000 then 1 else 2) else 0, s2))"
    by (simp add: calibrate_def Let_def s1_def)
  have u: "unat (calibrate_pattern n) = n div 64 mod 256"
    by (simp add: calibrate_pattern_def unat_of_nat)
  show ?thesis
    unfolding c usb_bulk_write_def Let_def bytes
    using u by (auto simp: case_prod_unfold s1)
qed

section \<open>repeatedControlTransfer\<close>

lemma poll_state_0 [simp]: "poll_state usb rt rq v ix sz 0 s = s"
  by (simp add: poll_state_def)

lemma poll_state_Suc:
  "poll_state usb rt rq v ix sz (Suc n) s
     = poll_state usb rt rq v ix sz n (snd (usb_control_msg usb rt rq v ix sz s))"
  by (simp add: poll_state_def funpow_Suc_right del: funpow.simps)

lemma poll_state_Suc':
  "poll_state usb rt rq v ix sz (Suc n) s
     = snd (usb_control_msg usb rt rq v ix sz (poll_state usb rt rq v ix sz n s))"
  by (simp add: poll_state_def)

lemma poll_runs_Suc:
  "poll_runs usb rt rq v ix sz c (Suc n) s \<longleftrightarrow>
     largeBuffer s 0 \<noteq> c \<and> 0 \<le> fst (usb_control_msg usb rt rq v ix sz s)
     \<and> poll_runs usb rt rq v ix sz c n (snd (usb_control_msg usb rt rq v ix sz s))"
proof -
  have u: "[0..<Suc n] = 0 # map Suc [0..<n]"
    by (simp add: upt_conv_Cons map_Suc_upt del: upt_Suc)
  show ?thesis
    unfolding poll_runs_def u by (simp add: list.pred_map comp_def poll_state_Suc)
qed

lemma loop_match:
  "largeBuffer s 0 = c \<Longrightarrow> repeatedControlTransfer_loop usb rt rq v ix sz c s = Some (1, s)"
  by (subst repeatedControlTransfer_loop.simps) simp

lemma loop_error:
  "largeBuffer s 0 \<noteq> c \<Longrightarrow> fst (usb_control_msg usb rt rq v ix sz s) < 0 \<Longrightarrow>
     repeatedControlTransfer_loop usb rt rq v ix sz c s
       = Some (0, snd (usb_control_msg usb rt rq v ix sz s))"
  by (subst repeatedControlTransfer_loop.simps) (simp add: case_prod_unfold)

lemma loop_again:
  "largeBuffer s 0 \<noteq> c \<Longrightarrow> 0 \<le> fst (usb_control_msg usb rt rq v ix sz s) \<Longrightarrow>
     repeatedControlTransfer_loop usb rt rq v ix sz c s
       = repeatedControlTransfer_loop usb rt rq v ix sz c (snd (usb_control_msg usb rt rq v ix sz s))"
  by (subst repeatedControlTransfer_loop.simps) (simp add: case_prod_unfold)

lemma loop_after_runs:
  "poll_runs usb rt rq v ix sz c n s \<Longrightarrow>
     repeatedControlTransfer_loop usb rt rq v ix sz c s
       = repeatedControlTransfer_loop usb rt rq v ix sz c (poll_state usb rt rq v ix sz n s)"
proof (induction n arbitrary: s)
  case 0
  show ?case by simp
next
  case (Suc n)
  then show ?case
    by (simp add: poll_runs_Suc poll_state_Suc loop_again)
qed

lemma trace_usb_control_msg:
  "trace (snd (usb_control_msg usb rt rq v ix sz s))
     = trace s @ [ControlMsg rt rq v ix (buffer_bytes s sz) sz]"
  by (simp add: usb_control_msg_def Let_def case_prod_unfold)

lemma trace_poll_state:
  "trace (poll_state usb rt rq v ix sz n s)
     = trace s @ map (\<lambda>k. ControlMsg rt rq v ix (buffer_bytes (poll_state usb rt rq v ix sz k s) sz) sz) [0..<n]"
  by (induction n) (simp_all add: poll_state_Suc' trace_usb_control_msg)

lemma poll_ends_match: "largeBuffer s 0 = c \<Longrightarrow> poll_ends usb rt rq v ix sz c s (1, s)"
  unfolding poll_ends_def by (rule exI [of _ 0]) (simp add: poll_runs_def)

lemma poll_ends_error:
  "largeBuffer s 0 \<noteq> c \<Longrightarrow> usb_control_msg usb rt rq v ix sz s = (result, s1) \<Longrightarrow> result < 0 \<Longrightarrow>
     poll_ends usb rt rq v ix sz c s (0, s1)"
  unfolding poll_ends_def by (rule exI [of _ 0]) (simp add: poll_runs_def poll_state_Suc)

lemma poll_ends_again:
  assumes "largeBuffer s 0 \<noteq> c" and u: "usb_control_msg usb rt rq v ix sz s = (result, s1)"
    and "\<not> result < 0" and e: "poll_ends usb rt rq v ix sz c s1 y"
  shows "poll_ends usb rt rq v ix sz c s y"
proof -
  have s1: "s1 = snd (usb_control_msg usb rt rq v ix sz s)"
    using u by simp
  from e obtain n where
    n: "poll_runs usb rt rq v ix sz c n s1"
      "y = (1, poll_state usb rt rq v ix sz n s1)
              \<and> largeBuffer (poll_state usb rt rq v ix sz n s1) 0 = c
            \<or> y = (0, poll_state usb rt rq v ix sz (Suc n) s1)
              \<and> largeBuffer (poll_state usb rt rq v ix sz n s1) 0 \<noteq> c
              \<and> fst (usb_control_msg usb rt rq v ix sz (poll_state usb rt rq v ix sz n s1)) < 0"
    unfolding poll_ends_def by blast
  have a: "poll_runs usb rt rq v ix sz c (Suc n) s"
    using n(1) assms(1,3) u by (simp add: poll_runs_Suc)
  have b: "y = (1, poll_state usb rt rq v ix sz (Suc n) s)
              \<and> largeBuffer (poll_state usb rt rq v ix sz (Suc n) s) 0 = c
            \<or> y = (0, poll_state usb rt rq v ix sz (Suc (Suc n)) s)
              \<and> largeBuffer (poll_state usb rt rq v ix sz (Suc n) s) 0 \<noteq> c
              \<and> fst (usb_control_msg usb rt rq v ix sz (poll_state usb rt rq v ix sz (Suc n) s)) < 0"
    using n(2) unfolding s1 poll_state_Suc [symmetric] .
  show ?thesis
    unfolding poll_ends_def using a b by (intro exI [of _ "Suc n"] conjI)
qed

lemma loop_Some_ends:
  assumes "repeatedControlTransfer_loop usb rt rq v ix sz c s = Some y"
  shows "poll_ends usb rt rq v ix sz c s y"
proof (rule repeatedControlTransfer_loop.raw_induct [where P = poll_ends, OF _ assms])
  fix loop :: "'a usb_device \<Rightarrow> int \<Rightarrow> int \<Rightarrow> int \<Rightarrow> int \<Rightarrow> int \<Rightarrow> byte \<Rightarrow> 'a driver \<Rightarrow> (int \<times> 'a driver) option"
  fix usb rt rq v ix sz c s y
  assume IH: "\<And>usb rt rq v ix sz c s y. loop usb rt rq v ix sz c s = Some y \<Longrightarrow>
                 poll_ends usb rt rq v ix sz c s y"
  assume eq: "(if largeBuffer s 0 \<noteq> c
      then case usb_control_msg usb rt rq v ix sz s of
           (result, s1) \<Rightarrow>
             if result < 0 then Some (0, s1)
             else loop usb rt rq v ix sz c s1
      else Some (1, s)) = Some y"
  show "poll_ends usb rt rq v ix sz c s y"
  proof (cases "largeBuffer s 0 = c")
    case True
    with eq have "y = (1, s)"
      by simp
    with True show ?thesis
      by (simp add: poll_ends_match)
  next
    case False
    obtain result s1 where u: "usb_control_msg usb rt rq v ix sz s = (result, s1)"
      by fastforce
    show ?thesis
    proof (cases "result < 0")
      case True
      with eq False u have "y = (0, s1)"
        by simp
      with poll_ends_error [OF False u True] show ?thesis
        by simp
    next
      case ok: False
      with eq False u have "loop usb rt rq v ix sz c s1 = Some y"
        by simp
      from poll_ends_again [OF False u ok IH [OF this]] show ?thesis .
    qed
  qed
qed

text \<open>
  What the loop does. It tests the first byte of the buffer before every attempt, the
  first one included. It returns \<open>Some y\<close> exactly in these cases:
  after \<open>n \<ge> 0\<close> attempts without error the byte equals \<open>checkCharacter\<close>, and then
  \<open>y\<close> is 1 with the state after these \<open>n\<close> transfers; or after \<open>n \<ge> 0\<close> such attempts
  the byte still differs and the next call reports an error, and then \<open>y\<close> is 0 with the
  state right after that call. The transfers issued are the \<open>n\<close> (or \<open>n + 1\<close>) control
  transfers of the attempts, all with the row's request.
\<close>

lemma repeatedControlTransfer_loop_polls:
  "(repeatedControlTransfer_loop usb rt rq v ix sz c s = Some y
      \<longleftrightarrow> poll_ends usb rt rq v ix sz c s y)
   \<and> trace (poll_state usb rt rq v ix sz m s)
       = trace s @ map (\<lambda>k. ControlMsg rt rq v ix
                               (buffer_bytes (poll_state usb rt rq v ix sz k s) sz) sz) [0..<m]"
proof -
  have "repeatedControlTransfer_loop usb rt rq v ix sz c s = Some y"
    if "poll_ends usb rt rq v ix sz c s y"
  proof -
    from that obtain n where
      n: "poll_runs usb rt rq v ix sz c n s"
        "y = (1, poll_state usb rt rq v ix sz n s)
              \<and> largeBuffer (poll_state usb rt rq v ix sz n s) 0 = c
            \<or> y = (0, poll_state usb rt rq v ix sz (Suc n) s)
              \<and> largeBuffer (poll_state usb rt rq v ix sz n s) 0 \<noteq> c
              \<and> fst (usb_control_msg usb rt rq v ix sz (poll_state usb rt rq v ix sz n s)) < 0"
      unfolding poll_ends_def by blast
    from n(2) show ?thesis
      unfolding loop_after_runs [OF n(1)]
      by (auto simp: loop_match loop_error poll_state_Suc')
  qed
  then show ?thesis
    using loop_Some_ends [of usb rt rq v ix sz c s y] by (auto simp: trace_poll_state)
qed

lemma repeatedControlTransfer_loop_polls_example:
  "repeatedControlTransfer_loop poll_device 0xc0 0x0c 0x8e 0 1 0x55 poll_start
     = Some (1, poll_state poll_device 0xc0 0x0c 0x8e 0 1 3 poll_start)
   \<and> length (trace (poll_state poll_device 0xc0 0x0c 0x8e 0 1 3 poll_start)) = 3"
proof -
  have runs: "poll_runs poll_device 0xc0 0x0c 0x8e 0 1 0x55 3 poll_start"
    by code_simp
  have found: "largeBuffer (poll_state poll_device 0xc0 0x0c 0x8e 0 1 3 poll_start) 0 = 0x55"
    by code_simp
  have "poll_ends poll_device 0xc0 0x0c 0x8e 0 1 0x55 poll_start
          (1, poll_state poll_device 0xc0 0x0c 0x8e 0 1 3 poll_start)"
    unfolding poll_ends_def using runs found by blast
  moreover have "trace poll_start = []"
    by (simp add: poll_start_def)
  ultimately show ?thesis
    using repeatedControlTransfer_loop_polls
      [of poll_device "0xc0" "0x0c" "0x8e" 0 1 "0x55" poll_start
          "(1, poll_state poll_device 0xc0 0x0c 0x8e 0 1 3 poll_start)" 3]
    by simp
qed

text \<open>
  On the primitive itself: when the buffer already starts with the byte the row waits
  for, it returns 1 at once, with the state as it was, so without any transfer.
\<close>

lemma repeatedControlTransfer_stale_match:
  "largeBuffer s 0 = word_of_int (data 9) \<Longrightarrow> repeatedControlTransfer usb data s = Some (1, s)"
  by (simp add: repeatedControlTransfer_def Let_def loop_match)

text \<open>
  Claim C8. The primitive should issue the control transfer at least once and look at
  the first byte of the buffer only after an attempt, so that it returns 1 only when
  the scanner has given the byte. The source tests the byte before the first attempt,
  on whatever an earlier transfer or fill left in the shared buffer. Two scenarios.
  The buffer starts with 0 and the row waits for 0: the primitive returns 1 with the
  state unchanged, its trace still empty. And two identical polling rows in a row on
  \<open>poll_device\<close>: the first returns 1 after three transfers, the second returns 1 on
  the byte the first one left, and the trace still has the three transfers only.
\<close>

theorem repeatedControlTransfer_stale_byte_no_transfer:
  "repeatedControlTransfer text_device ready_row text_start = Some (1, text_start)
   \<and> trace text_start = []
   \<and> map_option (\<lambda>r. (fst r, length (trace (snd r))))
        (repeatedControlTransfer poll_device poll_row poll_start) = Some (1, 3)
   \<and> map_option (\<lambda>r. (fst r, length (trace (snd r))))
        (repeatedControlTransfer poll_device poll_row
           (snd (the (repeatedControlTransfer poll_device poll_row poll_start)))) = Some (1, 3)"
proof -
  have "largeBuffer text_start 0 = word_of_int (ready_row 9)"
    by (simp add: text_start_def ready_row_def ptr_of_def)
  then have a: "repeatedControlTransfer text_device ready_row text_start = Some (1, text_start)"
    by (simp add: repeatedControlTransfer_def Let_def loop_match)
  have b: "trace text_start = []"
    by (simp add: text_start_def)
  have c: "map_option (\<lambda>r. (fst r, length (trace (snd r))))
        (repeatedControlTransfer poll_device poll_row poll_start) = Some (1, 3)"
    by code_simp
  have d: "map_option (\<lambda>r. (fst r, length (trace (snd r))))
        (repeatedControlTransfer poll_device poll_row
           (snd (the (repeatedControlTransfer poll_device poll_row poll_start)))) = Some (1, 3)"
    by code_simp
  show ?thesis
    using a b c d by simp
qed

section \<open>The interpreter\<close>

text \<open>
  Claim C4, as the source has it. In the setup loop of \<open>sane_start\<close> the leading int of
  the row selects the primitive as the claim says: \<open>0xFA\<close> \<open>bulkRead\<close>, \<open>0xFB\<close>
  \<open>repeatedControlTransfer\<close>, \<open>0xFF\<close> \<open>writeBulk0s\<close>, anything else
  \<open>controlTransfer\<close>. In the loop of \<open>sane_read\<close> there are two cases only: \<open>0xFA\<close>
  selects \<open>bulkRead\<close> (after which the pending count and offset are set), and every
  other value, \<open>0xFB\<close> and \<open>0xFF\<close> included, selects \<open>controlTransfer\<close>. This holds for
  every row number and every state, so for every row either loop reaches.
\<close>

theorem dispatch_by_opcode:
  "sane_start_setup_step usb typePtr i s
     = run_primitive usb (setup_dispatch (ptr_add typePtr (i * 16) 0)) (ptr_add typePtr (i * 16)) s
   \<and> Some (sane_read_step usb typePtr s)
     = map_option
         (\<lambda>(result, s1).
            (result,
             if scan_dispatch (ptr_add typePtr (read_i s * 16) 0) = PBulkRead
             then s1\<lparr>dataAvailable := push_bit 8 (ptr_add typePtr (read_i s * 16) 2)
                                        + ptr_add typePtr (read_i s * 16) 3,
                     whereInBuffer := 0\<rparr>
             else s1))
         (run_primitive usb (scan_dispatch (ptr_add typePtr (read_i s * 16) 0))
            (ptr_add typePtr (read_i s * 16)) s)"
proof -
  have r: "read_i (snd (bulkRead usb d s)) = read_i s" for d
    by (rule statics_read_i) simp
  show ?thesis
    by (simp add: sane_start_setup_step_def sane_read_step_def run_primitive_def
          setup_dispatch_def scan_dispatch_def case_prod_unfold r)
qed

text \<open>
  Claim C4 as stated fails for the scan phase. A row that starts with \<open>0xFB\<close> is run by
  \<open>sane_read\<close> as a plain control transfer: one transfer, with \<open>data[0] = 0xFB\<close> as the request
  type, where \<open>repeatedControlTransfer\<close> issues three transfers on this device. A row that starts with \<open>0xFF\<close> is run as a control
  transfer too, where \<open>writeBulk0s\<close> issues a bulk write.
\<close>

theorem sane_read_step_does_not_poll:
  "trace (snd (sane_read_step poll_device scan_poll_row poll_start))
     = [ControlMsg 0xfb 0xc0 0x8e0c 0 [] 0]
   \<and> map_option (\<lambda>r. length (trace (snd r)))
        (repeatedControlTransfer poll_device scan_poll_row poll_start) = Some 3
   \<and> trace (snd (sane_read_step text_device zero_write_row text_start))
     = [ControlMsg 0xff 2 0x500 0 [] 0]
   \<and> trace (snd (writeBulk0s text_device zero_write_row text_start)) = [BulkWrite 2 [0, 0] 2]"
  by code_simp

section \<open>The setup phase of sane_start\<close>

lemma sane_start_setup_row_simps:
  "sane_start_setup_row usb typePtr i None = None"
  "sane_start_setup_row usb typePtr i (Some s) = map_option snd (sane_start_setup_step usb typePtr i s)"
  by (simp_all add: sane_start_setup_row_def)

lemma fold_setup_row_None: "fold (sane_start_setup_row usb typePtr) ks None = None"
  by (induction ks) (simp_all add: sane_start_setup_row_simps)

lemma sane_start_setup_fold:
  "sane_start_setup usb typePtr typeSize i s
     = fold (sane_start_setup_row usb typePtr) [i..typeSize - 1] (Some s)"
proof (induction usb typePtr typeSize i s rule: sane_start_setup.induct)
  case (1 usb typePtr typeSize i s)
  show ?case
  proof (cases "i < typeSize")
    case True
    then have u: "[i..typeSize - 1] = i # [i + 1..typeSize - 1]"
      by (simp add: upto_rec1)
    show ?thesis
    proof (cases "sane_start_setup_step usb typePtr i s")
      case None
      with True show ?thesis
        by (subst sane_start_setup.simps)
           (simp add: u sane_start_setup_row_simps fold_setup_row_None)
    next
      case (Some p)
      obtain result s1 where p: "p = (result, s1)"
        by (cases p)
      from "1.IH" [OF True Some [unfolded p] refl refl] True Some p show ?thesis
        by (subst sane_start_setup.simps) (simp add: u sane_start_setup_row_simps)
    qed
  next
    case False
    then show ?thesis
      by (subst sane_start_setup.simps) simp
  qed
qed


lemma sane_start_setup_next:
  "i < typeSize \<Longrightarrow> sane_start_setup_step usb typePtr i s = Some (result, s1) \<Longrightarrow>
     sane_start_setup usb typePtr typeSize i s = sane_start_setup usb typePtr typeSize (i + 1) s1"
  by (subst sane_start_setup.simps) simp

text \<open>
  Claim C5. The setup loop started at row 0 is the composition of its rounds over the
  rows \<open>0, ..., typeSize - 1\<close>, each of which drops the row's result; whatever result a
  row returns, the loop goes on with the next row; and when the initialize loop has run
  to its end and the setup loop returns, \<open>sane_start\<close> returns what the calibration loop
  decides: \<open>SANE_STATUS_IO_ERROR\<close> if a calibration row fails, \<open>SANE_STATUS_GOOD\<close>
  otherwise. (The setup loop fails to return only when a polling loop never ends.)
\<close>

theorem sane_start_ignores_setup_results:
  "sane_start_setup usb typePtr typeSize 0 s
     = fold (sane_start_setup_row usb typePtr) [0..typeSize - 1] (Some s)
   \<and> (i < typeSize \<and> sane_start_setup_step usb typePtr i s = Some (result, s1) \<longrightarrow>
        sane_start_setup usb typePtr typeSize i s
          = sane_start_setup usb typePtr typeSize (i + 1) s1)
   \<and> (fst (sane_start_init usb T 0 s) = None
        \<and> sane_start_setup usb (setup_typePtr T (snd (sane_start_init usb T 0 s)))
             (setup_typeSize T (snd (sane_start_init usb T 0 s)))
             0 (snd (sane_start_init usb T 0 s)) = Some s2 \<longrightarrow>
        sane_start usb T s
          = Some (case sane_start_calibration usb T 0 s2 of
                    (Some st, s3) \<Rightarrow> (st, s3)
                  | (None, s3) \<Rightarrow> (SANE_STATUS_GOOD, s3)))"
proof -
  have "sane_start usb T s
          = Some (case sane_start_calibration usb T 0 s2 of
                    (Some st, s3) \<Rightarrow> (st, s3)
                  | (None, s3) \<Rightarrow> (SANE_STATUS_GOOD, s3))"
    if a: "fst (sane_start_init usb T 0 s) = None"
      and b: "sane_start_setup usb (setup_typePtr T (snd (sane_start_init usb T 0 s)))
             (setup_typeSize T (snd (sane_start_init usb T 0 s)))
             0 (snd (sane_start_init usb T 0 s)) = Some s2"
  proof -
    obtain s1 where i: "sane_start_init usb T 0 s = (None, s1)"
      using a by (cases "sane_start_init usb T 0 s") auto
    then show ?thesis
      using b by (auto simp: sane_start_def Let_def split: prod.split option.split)
  qed
  then show ?thesis
    using sane_start_setup_fold [of usb typePtr typeSize 0 s]
      sane_start_setup_next [of i typeSize usb typePtr s result s1]
    by blast
qed


theorem sane_start_ignores_setup_results_witness:
  "fst (the (sane_start_setup_step picky_device (setupColor session_tables) 0 color_start)) = 0
   \<and> fst (the (sane_start_setup_step picky_device (setupColor session_tables) 1
                  (snd (the (sane_start_setup_step picky_device (setupColor session_tables) 0
                               color_start))))) = 0
   \<and> map_option fst (sane_start picky_device session_tables color_start)
       = Some SANE_STATUS_GOOD
   \<and> map_option (\<lambda>r. length (trace (snd r))) (sane_start picky_device session_tables color_start)
       = Some 4"
proof -
  define s1 where "s1 = snd (sane_start_init picky_device session_tables 0 color_start)"
  define so where "so = sane_start_setup picky_device (setup_typePtr session_tables s1)
                          (setup_typeSize session_tables s1) 0 s1"
  have a: "fst (sane_start_init picky_device session_tables 0 color_start) = None"
    by code_simp
  have "\<not> Option.is_none so"
    unfolding so_def s1_def by code_simp
  then have b: "so = Some (the so)"
    by (simp add: Option.is_none_def)
  have c: "fst (case sane_start_calibration picky_device session_tables 0 (the so) of
                  (Some st, s3) \<Rightarrow> (st, s3)
                | (None, s3) \<Rightarrow> (SANE_STATUS_GOOD, s3)) = SANE_STATUS_GOOD"
    unfolding so_def s1_def by code_simp
  have d: "length (trace (snd (case sane_start_calibration picky_device session_tables 0 (the so) of
                  (Some st, s3) \<Rightarrow> (st, s3)
                | (None, s3) \<Rightarrow> (SANE_STATUS_GOOD, s3)))) = 4"
    unfolding so_def s1_def by code_simp
  have e: "fst (the (sane_start_setup_step picky_device (setupColor session_tables) 0 color_start)) = 0"
    by code_simp
  have f: "fst (the (sane_start_setup_step picky_device (setupColor session_tables) 1
                  (snd (the (sane_start_setup_step picky_device (setupColor session_tables) 0
                               color_start))))) = 0"
    by code_simp
  from sane_start_ignores_setup_results [of picky_device _ _ color_start _ _ _ session_tables "the so"]
    a b [unfolded so_def s1_def]
  have "sane_start picky_device session_tables color_start
          = Some (case sane_start_calibration picky_device session_tables 0 (the so) of
                    (Some st, s3) \<Rightarrow> (st, s3)
                  | (None, s3) \<Rightarrow> (SANE_STATUS_GOOD, s3))"
    unfolding so_def s1_def by blast
  then show ?thesis
    using c d e f by simp
qed

section \<open>The static variables of sane_read across sessions\<close>












end
